theory Spec2Isabelle
  imports Main "HOL-Library.Sublist"
begin

section \<open>The shareable ESLint flat configuration of package/index.js\<close>

text \<open>
  The module \<^verbatim>\<open>package/index.js\<close> exports one value: an ordered array of
  configuration layers (object literals). It contains no function of its own; what it
  computes at load time is the calls of Node's \<^verbatim>\<open>path.resolve\<close> that build the
  physical directories of the alias table. The embedding has three parts:
  \<^item> the values of the object literals, as a small datatype of JavaScript values;
  \<^item> Node's POSIX \<^verbatim>\<open>path.resolve\<close>, the runtime function the literals call;
  \<^item> the exported array itself, entry by entry.
\<close>

subsection \<open>JavaScript values of the object literals\<close>

text \<open>
  \<open>JRegex\<close> holds the source text of a regular-expression literal; \<open>JRef\<close> stands
  for a value imported from another package (a plugin object, the parser), which the
  configuration passes on untouched.
\<close>

datatype jv =
    JStr string
  | JNum int
  | JBool bool
  | JRegex string
  | JRef string
  | JArr "jv list"
  | JObj "(string \<times> jv) list"

text \<open>Property access \<^verbatim>\<open>o[k]\<close>: in an object literal the last occurrence of a key
  is the one that counts; a missing key (or a value that is no object) gives \<open>None\<close>
  for \<^verbatim>\<open>undefined\<close>.\<close>

fun get :: "string \<Rightarrow> jv \<Rightarrow> jv option" where
  "get k (JObj kvs) = map_of (rev kvs) k"
| "get k _ = None"

fun get_in :: "string list \<Rightarrow> jv \<Rightarrow> jv option" where
  "get_in [] v = Some v"
| "get_in (k # ks) v = (case get k v of None \<Rightarrow> None | Some w \<Rightarrow> get_in ks w)"

text \<open>\<^verbatim>\<open>Object.keys(o)\<close> of an object literal without repeated keys.\<close>

fun keys :: "jv \<Rightarrow> string list" where
  "keys (JObj kvs) = map fst kvs"
| "keys _ = []"

subsection \<open>Node's POSIX path.resolve\<close>

text \<open>
  \<^verbatim>\<open>path.resolve(...args)\<close> walks its arguments from right to left, and then the
  current working directory, prepending each non-empty one with a separator until the
  path built so far is absolute; the result is normalised segment by segment
  (\<^verbatim>\<open>normalizeString\<close>: empty and \<^verbatim>\<open>.\<close> segments vanish, \<^verbatim>\<open>..\<close> removes
  the segment before it, and above the root it is dropped for an absolute path and
  kept for a relative one).
\<close>

fun is_absolute :: "string \<Rightarrow> bool" where
  "is_absolute [] = False"
| "is_absolute (c # cs) = (c = CHR ''/'')"

fun resolve_loop :: "string list \<Rightarrow> string \<Rightarrow> bool \<Rightarrow> string \<times> bool" where
  "resolve_loop [] acc ab = (acc, ab)"
| "resolve_loop (p # ps) acc ab =
     (if ab then (acc, ab)
      else if p = [] then resolve_loop ps acc ab
      else resolve_loop ps (p @ ''/'' @ acc) (is_absolute p))"

fun split_slash :: "string \<Rightarrow> string list" where
  "split_slash [] = [[]]"
| "split_slash (c # cs) =
     (if c = CHR ''/'' then [] # split_slash cs
      else (case split_slash cs of [] \<Rightarrow> [[c]] | s # ss \<Rightarrow> (c # s) # ss))"

text \<open>One segment of the normalisation; the stack holds the kept segments, last first.\<close>

fun norm_step :: "bool \<Rightarrow> string \<Rightarrow> string list \<Rightarrow> string list" where
  "norm_step up seg st =
     (if seg = [] \<or> seg = ''.'' then st
      else if seg = ''..'' then
        (case st of
           [] \<Rightarrow> if up then [''..''] else []
         | t # ts \<Rightarrow> if up \<and> t = ''..'' then ''..'' # st else ts)
      else seg # st)"

definition normalize_segments :: "bool \<Rightarrow> string list \<Rightarrow> string list" where
  "normalize_segments up segs = rev (fold (norm_step up) segs [])"

fun join_slash :: "string list \<Rightarrow> string" where
  "join_slash [] = []"
| "join_slash [s] = s"
| "join_slash (s # t # ts) = s @ ''/'' @ join_slash (t # ts)"

definition path_resolve :: "string \<Rightarrow> string list \<Rightarrow> string" where
  "path_resolve cwd args =
     (case resolve_loop (rev args @ [cwd]) [] False of
        (p, ab) \<Rightarrow>
          (let n = join_slash (normalize_segments (\<not> ab) (split_slash p))
           in if ab then ''/'' @ n else if n \<noteq> [] then n else ''.''))"

subsection \<open>The exported configuration\<close>

text \<open>
  Parameters of the module: \<open>dirname\<close> is \<^verbatim>\<open>__dirname\<close>, the directory of the
  configuration module (\<^verbatim>\<open>path.dirname(fileURLToPath(import.meta.url))\<close>, an
  absolute path); \<open>cwd\<close> is the working directory of the process that loads it;
  \<open>recommended\<close> is \<^verbatim>\<open>eslint.configs.recommended\<close> and \<open>extended\<close> the layers
  returned by \<^verbatim>\<open>compat.extends(...)\<close>, both built by other packages.
\<close>

definition bsl :: string where
  "bsl = [CHR 0x5C]"

definition ignores_layer :: jv where
  "ignores_layer = JObj
     [(''ignores'', JArr
        [JStr ''dist/**/*'',
         JStr ''build/**/*'',
         JStr ''node_modules/**/*'',
         JStr ''vite.config.js'',
         JStr ''src/components/ui/**/*'',
         JStr ''public/**/*'',
         JStr ''*.min.js'',
         JStr ''.prettierrc.cjs'',
         JStr ''eslint.config.js''])]"

definition languageOptions :: jv where
  "languageOptions = JObj
     [(''ecmaVersion'', JNum 2024),
      (''sourceType'', JStr ''module''),
      (''parser'', JRef ''babelParser''),
      (''parserOptions'', JObj
         [(''ecmaFeatures'', JObj [(''jsx'', JBool True)]),
          (''requireConfigFile'', JBool False),
          (''babelOptions'', JObj [(''presets'', JArr [JStr ''@babel/preset-react''])])]),
      (''globals'', JObj
         [(''browser'', JBool True),
          (''node'', JBool True),
          (''jest'', JBool True)])]"

definition plugins :: jv where
  "plugins = JObj
     [(''react'', JRef ''reactPlugin''),
      (''react-hooks'', JRef ''reactHooksPlugin''),
      (''jsx-a11y'', JRef ''jsxA11yPlugin''),
      (''import'', JRef ''importPlugin''),
      (''unicorn'', JRef ''unicornPlugin''),
      (''sonarjs'', JRef ''sonarjsPlugin''),
      (''promise'', JRef ''promisePlugin''),
      (''prettier'', JRef ''prettierPlugin'')]"

definition alias_map :: "string \<Rightarrow> string \<Rightarrow> jv" where
  "alias_map dirname cwd = JArr
     [JArr [JStr ''@'', JStr (path_resolve cwd [dirname, ''./src''])],
      JArr [JStr ''@hooks'', JStr (path_resolve cwd [dirname, ''./src/hooks''])],
      JArr [JStr ''@lib'', JStr (path_resolve cwd [dirname, ''./src/lib''])],
      JArr [JStr ''@context'', JStr (path_resolve cwd [dirname, ''./src/lib/context''])],
      JArr [JStr ''@pages'', JStr (path_resolve cwd [dirname, ''./src/pages''])],
      JArr [JStr ''@constants'', JStr (path_resolve cwd [dirname, ''./src/lib/constants''])],
      JArr [JStr ''@api'', JStr (path_resolve cwd [dirname, ''./src/services/api''])],
      JArr [JStr ''@query'', JStr (path_resolve cwd [dirname, ''./src/services/query''])],
      JArr [JStr ''@store'', JStr (path_resolve cwd [dirname, ''./src/services/store''])],
      JArr [JStr ''@public'', JStr (path_resolve cwd [dirname, ''./public''])]]"

definition settings :: "string \<Rightarrow> string \<Rightarrow> jv" where
  "settings dirname cwd = JObj
     [(''import/resolver'', JObj
         [(''alias'', JObj
             [(''map'', alias_map dirname cwd),
              (''extensions'', JArr [JStr ''.js'', JStr ''.jsx''])]),
          (''node'', JObj
             [(''extensions'', JArr [JStr ''.js'', JStr ''.jsx''])])]),
      (''react'', JObj
         [(''pragma'', JStr ''React''),
          (''version'', JStr ''detect'')]),
      (''propWrapperFunctions'', JArr
         [JStr ''forbidExtraProps'',
          JObj [(''property'', JStr ''freeze''), (''object'', JStr ''Object'')],
          JObj [(''property'', JStr ''myFavoriteWrapper'')],
          JObj [(''property'', JStr ''forbidExtraProps''), (''exact'', JBool True)]]),
      (''componentWrapperFunctions'', JArr
         [JStr ''observer'',
          JObj [(''property'', JStr ''styled'')],
          JObj [(''property'', JStr ''observer''), (''object'', JStr ''Mobx'')],
          JObj [(''property'', JStr ''observer''), (''object'', JStr ''React'')]]),
      (''formComponents'', JArr
         [JStr ''CustomForm'',
          JObj [(''name'', JStr ''SimpleForm''), (''formAttribute'', JStr ''endpoint'')],
          JObj [(''name'', JStr ''Form''),
                (''formAttribute'', JArr [JStr ''registerEndpoint'', JStr ''loginEndpoint''])]]),
      (''linkComponents'', JArr
         [JStr ''Hyperlink'',
          JObj [(''name'', JStr ''MyLink''), (''linkAttribute'', JStr ''to'')],
          JObj [(''name'', JStr ''Link''),
                (''linkAttribute'', JArr [JStr ''to'', JStr ''href''])]])]"

definition rules :: jv where
  "rules = JObj
     [(''no-var'', JStr ''error''),
      (''prefer-const'', JStr ''error''),
      (''prefer-template'', JStr ''error''),
      (''prefer-destructuring'', JArr
         [JStr ''error'', JObj [(''array'', JBool True), (''object'', JBool True)]]),
      (''object-curly-spacing'', JArr [JStr ''error'', JStr ''always'']),
      (''array-bracket-spacing'', JArr [JStr ''error'', JStr ''never'']),
      (''comma-dangle'', JArr [JStr ''off'']),
      (''no-unused-vars'', JArr
         [JStr ''error'',
          JObj [(''varsIgnorePattern'', JStr ''^_''),
                (''argsIgnorePattern'', JStr ''^_''),
                (''ignoreRestSiblings'', JBool True)]]),
      (''no-console'', JArr
         [JStr ''warn'', JObj [(''allow'', JArr [JStr ''warn'', JStr ''error''])]]),
      (''no-debugger'', JStr ''warn''),
      (''import/order'', JArr
         [JStr ''error'',
          JObj [(''groups'', JArr
                   [JStr ''builtin'', JStr ''external'', JStr ''internal'',
                    JStr ''parent'', JStr ''sibling'', JStr ''index'']),
                (''newlines-between'', JStr ''always''),
                (''alphabetize'', JObj
                   [(''order'', JStr ''asc''), (''caseInsensitive'', JBool True)])]]),
      (''import/no-default-export'', JStr ''off''),
      (''import/prefer-default-export'', JStr ''off''),
      (''import/no-duplicates'', JStr ''error''),
      (''react/function-component-definition'', JArr
         [JStr ''error'',
          JObj [(''namedComponents'', JStr ''arrow-function''),
                (''unnamedComponents'', JStr ''arrow-function'')]]),
      (''react/prefer-stateless-function'', JStr ''error''),
      (''react/no-multi-comp'', JArr
         [JStr ''error'', JObj [(''ignoreStateless'', JBool True)]]),
      (''react/jsx-filename-extension'', JArr
         [JStr ''error'', JObj [(''extensions'', JArr [JStr ''.jsx''])]]),
      (''react/jsx-fragments'', JArr [JStr ''error'', JStr ''syntax'']),
      (''react/jsx-no-useless-fragment'', JArr
         [JStr ''error'', JObj [(''allowExpressions'', JBool True)]]),
      (''react/jsx-curly-brace-presence'', JArr
         [JStr ''error'',
          JObj [(''props'', JStr ''never''), (''children'', JStr ''never'')]]),
      (''react/jsx-boolean-value'', JArr [JStr ''error'', JStr ''never'']),
      (''react/jsx-wrap-multilines'', JArr
         [JStr ''error'',
          JObj [(''declaration'', JStr ''parens-new-line''),
                (''assignment'', JStr ''parens-new-line''),
                (''return'', JStr ''parens-new-line''),
                (''arrow'', JStr ''parens-new-line''),
                (''condition'', JStr ''parens-new-line''),
                (''logical'', JStr ''parens-new-line''),
                (''prop'', JStr ''parens-new-line'')]]),
      (''react/jsx-handler-names'', JArr
         [JStr ''error'',
          JObj [(''eventHandlerPrefix'', JStr ''handle''),
                (''eventHandlerPropPrefix'', JStr ''on''),
                (''checkLocalVariables'', JBool True)]]),
      (''react/no-access-state-in-setstate'', JStr ''error''),
      (''react/no-redundant-should-component-update'', JStr ''error''),
      (''react/no-typos'', JStr ''error''),
      (''react/no-unsafe'', JStr ''error''),
      (''react/no-unused-state'', JStr ''error''),
      (''react/jsx-no-bind'', JArr [JStr ''off'']),
      (''react/jsx-no-constructed-context-values'', JStr ''error''),
      (''react/prop-types'', JStr ''error''),
      (''react/require-default-props'', JStr ''error''),
      (''react/default-props-match-prop-types'', JStr ''error''),
      (''react/display-name'', JArr
         [JStr ''error'', JObj [(''ignoreTranspilerName'', JBool False)]]),
      (''react/no-array-index-key'', JStr ''error''),
      (''react/no-danger'', JStr ''warn''),
      (''react/no-this-in-sfc'', JStr ''error''),
      (''react/no-unescaped-entities'', JStr ''error''),
      (''react/no-unknown-property'', JStr ''error''),
      (''react/void-dom-elements-no-children'', JStr ''error''),
      (''react-hooks/rules-of-hooks'', JStr ''error''),
      (''react-hooks/exhaustive-deps'', JArr
         [JStr ''error'',
          JObj [(''additionalHooks'', JStr ''(useAsyncEffect|useUpdateEffect)'')]]),
      (''jsx-a11y/anchor-is-valid'', JArr
         [JStr ''error'',
          JObj [(''components'', JArr [JStr ''Link'']),
                (''specialLink'', JArr [JStr ''hrefLeft'', JStr ''hrefRight'']),
                (''aspects'', JArr [JStr ''invalidHref'', JStr ''preferButton''])]]),
      (''jsx-a11y/click-events-have-key-events'', JStr ''error''),
      (''jsx-a11y/no-static-element-interactions'', JStr ''error''),
      (''unicorn/prefer-node-protocol'', JStr ''error''),
      (''unicorn/prefer-module'', JStr ''error''),
      (''unicorn/prefer-optional-catch-binding'', JStr ''error''),
      (''unicorn/prefer-string-starts-ends-with'', JStr ''error''),
      (''unicorn/prefer-array-find'', JStr ''error''),
      (''unicorn/prefer-array-some'', JStr ''error''),
      (''unicorn/prefer-includes'', JStr ''error''),
      (''unicorn/prefer-array-flat'', JStr ''error''),
      (''unicorn/prefer-array-flat-map'', JStr ''error''),
      (''unicorn/no-array-push-push'', JStr ''error''),
      (''unicorn/prefer-spread'', JStr ''error''),
      (''unicorn/prefer-string-slice'', JStr ''error''),
      (''unicorn/prefer-string-trim-start-end'', JStr ''error''),
      (''unicorn/prevent-abbreviations'', JArr
         [JStr ''error'', JObj [(''checkFilenames'', JBool False)]]),
      (''unicorn/filename-case'', JArr
         [JStr ''error'',
          JObj [(''cases'', JObj [(''camelCase'', JBool True), (''pascalCase'', JBool True)]),
                (''ignore'', JArr
                   [JRegex (''^[A-Z]+'' @ bsl @ ''..*$''),
                    JRegex (''.*'' @ bsl @ ''.component'' @ bsl @ ''.jsx?$''),
                    JRegex (''.*'' @ bsl @ ''.hook'' @ bsl @ ''.js$''),
                    JRegex (''.*'' @ bsl @ ''.api'' @ bsl @ ''.js$''),
                    JRegex (''.*'' @ bsl @ ''.query'' @ bsl @ ''.js$''),
                    JRegex (''.*'' @ bsl @ ''.slice'' @ bsl @ ''.js$''),
                    JRegex (''.*'' @ bsl @ ''.test'' @ bsl @ ''.jsx?$''),
                    JRegex (''.*'' @ bsl @ ''.story'' @ bsl @ ''.jsx?$''),
                    JRegex (''.*'' @ bsl @ ''.config'' @ bsl @ ''.js$''),
                    JRegex (''.*'' @ bsl @ ''.constant'' @ bsl @ ''.js$'')])]]),
      (''sonarjs/cognitive-complexity'', JArr [JStr ''error'', JNum 15]),
      (''sonarjs/max-switch-cases'', JArr [JStr ''error'', JNum 10]),
      (''sonarjs/no-duplicate-string'', JArr
         [JStr ''error'', JObj [(''threshold'', JNum 2)]]),
      (''sonarjs/no-identical-functions'', JStr ''error''),
      (''complexity'', JArr [JStr ''error'', JObj [(''max'', JNum 10)]]),
      (''max-depth'', JArr [JStr ''error'', JObj [(''max'', JNum 4)]]),
      (''max-lines-per-function'', JArr
         [JStr ''error'',
          JObj [(''max'', JNum 100),
                (''skipBlankLines'', JBool True),
                (''skipComments'', JBool True)]]),
      (''max-params'', JArr [JStr ''error'', JObj [(''max'', JNum 10)]]),
      (''array-callback-return'', JArr
         [JStr ''error'', JObj [(''allowImplicit'', JBool True)]]),
      (''block-scoped-var'', JStr ''error''),
      (''consistent-return'', JStr ''error''),
      (''curly'', JArr [JStr ''error'', JStr ''multi-line'']),
      (''default-case'', JArr
         [JStr ''error'', JObj [(''commentPattern'', JStr ''^no default$'')]]),
      (''default-case-last'', JStr ''error''),
      (''default-param-last'', JStr ''error''),
      (''dot-notation'', JArr
         [JStr ''error'', JObj [(''allowKeywords'', JBool True)]]),
      (''dot-location'', JArr [JStr ''error'', JStr ''property'']),
      (''class-methods-use-this'', JArr
         [JStr ''error'', JObj [(''exceptMethods'', JArr [])]]),
      (''jsdoc/check-alignment'', JStr ''error''),
      (''jsdoc/check-indentation'', JStr ''error''),
      (''react/react-in-jsx-scope'', JStr ''off''),
      (''jsdoc/require-returns'', JStr ''off''),
      (''jsdoc/require-param'', JStr ''off'')]"

definition main_layer :: "string \<Rightarrow> string \<Rightarrow> jv" where
  "main_layer dirname cwd = JObj
     [(''languageOptions'', languageOptions),
      (''plugins'', plugins),
      (''rules'', rules),
      (''settings'', settings dirname cwd)]"

definition jsx_layer :: jv where
  "jsx_layer = JObj
     [(''files'', JArr [JStr ''**/*.jsx'']),
      (''rules'', JObj
         [(''unicorn/filename-case'', JArr
             [JStr ''error'',
              JObj [(''cases'', JObj [(''pascalCase'', JBool True)]),
                    (''ignore'', JArr
                       [JRegex (''^index'' @ bsl @ ''.jsx$''),
                        JRegex (''^App'' @ bsl @ ''.jsx$''),
                        JRegex (''^main'' @ bsl @ ''.jsx$''),
                        JRegex (''^setupTests'' @ bsl @ ''.jsx$''),
                        JRegex (''^.*'' @ bsl @ ''.test'' @ bsl @ ''.jsx$'')])]])])]"

definition js_layer :: jv where
  "js_layer = JObj
     [(''files'', JArr [JStr ''**/*.js'']),
      (''rules'', JObj
         [(''unicorn/filename-case'', JArr
             [JStr ''error'',
              JObj [(''cases'', JObj [(''camelCase'', JBool True)])]])])]"

text \<open>The default export.\<close>

definition config :: "string \<Rightarrow> string \<Rightarrow> jv \<Rightarrow> jv list \<Rightarrow> jv list" where
  "config dirname cwd recommended extended =
     [ignores_layer, recommended] @ extended @ [main_layer dirname cwd, jsx_layer, js_layer]"

subsection \<open>Reading the alias settings out of the configuration\<close>

text \<open>
  The alias table is \<^verbatim>\<open>settings["import/resolver"].alias.map\<close>, a sequence of
  two-element arrays \<^verbatim>\<open>[symbolicPrefix, physicalDirectory]\<close>; the extension lists are
  \<^verbatim>\<open>settings["import/resolver"].alias.extensions\<close> and
  \<^verbatim>\<open>settings["import/resolver"].node.extensions\<close>.
\<close>

fun alias_entry :: "jv \<Rightarrow> (string \<times> string) option" where
  "alias_entry (JArr [JStr p, JStr d]) = Some (p, d)"
| "alias_entry _ = None"

fun str_of :: "jv \<Rightarrow> string option" where
  "str_of (JStr s) = Some s"
| "str_of _ = None"

definition alias_table :: "jv \<Rightarrow> (string \<times> string) list" where
  "alias_table layer =
     (case get_in [''settings'', ''import/resolver'', ''alias'', ''map''] layer of
        Some (JArr es) \<Rightarrow> List.map_filter alias_entry es
      | _ \<Rightarrow> [])"

definition extensions_at :: "string \<Rightarrow> jv \<Rightarrow> string list" where
  "extensions_at resolver layer =
     (case get_in [''settings'', ''import/resolver'', resolver, ''extensions''] layer of
        Some (JArr es) \<Rightarrow> List.map_filter str_of es
      | _ \<Rightarrow> [])"

text \<open>The table of the configuration, as a list of pairs.\<close>

definition table :: "string \<Rightarrow> string \<Rightarrow> (string \<times> string) list" where
  "table dirname cwd = alias_table (main_layer dirname cwd)"

subsection \<open>Paths and directory trees\<close>

text \<open>
  The segments of a path are its non-empty parts between separators; a path lies inside
  a directory when the directory's segments begin the path's segments.
\<close>

definition segments :: "string \<Rightarrow> string list" where
  "segments p = filter (\<lambda>s. s \<noteq> []) (split_slash p)"

definition inside :: "string \<Rightarrow> string \<Rightarrow> bool" where
  "inside dir p = prefix (segments dir) (segments p)"

text \<open>The relative directories the table is built from, as segments.\<close>

definition relative_dirs :: "(string \<times> string list) list" where
  "relative_dirs =
     [(''@'', [''src'']),
      (''@hooks'', [''src'', ''hooks'']),
      (''@lib'', [''src'', ''lib'']),
      (''@context'', [''src'', ''lib'', ''context'']),
      (''@pages'', [''src'', ''pages'']),
      (''@constants'', [''src'', ''lib'', ''constants'']),
      (''@api'', [''src'', ''services'', ''api'']),
      (''@query'', [''src'', ''services'', ''query'']),
      (''@store'', [''src'', ''services'', ''store'']),
      (''@public'', [''public''])]"

subsection \<open>The alias resolver\<close>

text \<open>
  Modelled from the spec: the function \<^verbatim>\<open>resolve\<close> of the alias resolver. The
  sources hold the resolver's settings only; the resolver that reads them is a separate
  package. The contract followed here: \<^emph>\<open>scans the AliasTable for entries whose
  symbolicPrefix is a prefix of specifier; if multiple entries match, the longest
  matching prefix wins; if no entry matches, returns NotAnAlias\<close>, and for the
  extensions: \<^emph>\<open>resolution must try each in order and succeed on the first physical
  file that exists, or signal unresolved if none exist\<close>. A prefix is a prefix of a
  specifier on whole path segments: the specifier is the prefix itself or the prefix
  followed by a separator. This is the reading under which every sentence of the spec
  holds, its scenario included: with the table \<^verbatim>\<open>[["@","./src"], ["@hooks","./src/hooks"]]\<close>
  the specifier \<^verbatim>\<open>"@utils/missing"\<close> has \<^emph>\<open>no matching prefix\<close> and yields
  \<open>NotAnAlias\<close>, while \<^verbatim>\<open>"@lib/hooks/foo"\<close> is matched by both \<^verbatim>\<open>"@lib"\<close> and
  \<^verbatim>\<open>"@lib/hooks"\<close>. A candidate is the directory of the selected entry, the rest of
  the specifier after the prefix, and an extension. The file system is the predicate
  \<open>file_exists\<close>. The result is always one of the three signals; there is no error
  result, as the spec has none (\<^emph>\<open>this component itself never throws\<close>). The spec
  leaves the precedence among entries with the same prefix undefined; the scan keeps
  the later one, and nothing below rests on that choice.
\<close>

datatype resolution = NotAnAlias | Unresolved | Resolved string

definition matches :: "string \<Rightarrow> string \<Rightarrow> bool" where
  "matches p s = (s = p \<or> prefix (p @ ''/'') s)"

definition scan_step ::
  "string \<Rightarrow> string \<times> string \<Rightarrow> (string \<times> string) option \<Rightarrow> (string \<times> string) option" where
  "scan_step s e best =
     (if matches (fst e) s \<and>
         (case best of None \<Rightarrow> True | Some b \<Rightarrow> length (fst b) \<le> length (fst e))
      then Some e else best)"

definition select_entry :: "(string \<times> string) list \<Rightarrow> string \<Rightarrow> (string \<times> string) option" where
  "select_entry tbl s = fold (scan_step s) tbl None"

definition candidates :: "string \<times> string \<Rightarrow> string list \<Rightarrow> string \<Rightarrow> string list" where
  "candidates e exts s = map (\<lambda>x. snd e @ drop (length (fst e)) s @ x) exts"

definition resolve ::
  "(string \<times> string) list \<Rightarrow> string list \<Rightarrow> (string \<Rightarrow> bool) \<Rightarrow> string \<Rightarrow> resolution" where
  "resolve tbl exts file_exists s =
     (case select_entry tbl s of
        None \<Rightarrow> NotAnAlias
      | Some e \<Rightarrow>
          (case find file_exists (candidates e exts s) of
             None \<Rightarrow> Unresolved
           | Some f \<Rightarrow> Resolved f))"

text \<open>The resolver with the table and the extension list of the configuration.\<close>

definition resolve_configured ::
  "string \<Rightarrow> string \<Rightarrow> (string \<Rightarrow> bool) \<Rightarrow> string \<Rightarrow> resolution" where
  "resolve_configured dirname cwd file_exists s =
     resolve (table dirname cwd) (extensions_at ''alias'' (main_layer dirname cwd)) file_exists s"

subsection \<open>Merging the layers\<close>

text \<open>
  Modelled from the spec: the merge of the configuration layers, which the lint engine
  performs and the sources do not contain. The contract followed here: \<^emph>\<open>later layers
  in the merge order taking precedence over earlier ones for any rule key collision --
  standard rightmost wins override semantics\<close>. A layer with a \<^verbatim>\<open>files\<close> key takes
  part for the files one of its patterns matches, a layer without it for every file;
  the pattern matcher \<open>glob\<close> belongs to the engine and is a parameter. Ignore patterns
  are outside this merge.
\<close>

definition rules_of :: "jv \<Rightarrow> (string \<times> jv) list" where
  "rules_of layer = (case get ''rules'' layer of Some (JObj kvs) \<Rightarrow> kvs | _ \<Rightarrow> [])"

definition merge_rules :: "jv \<Rightarrow> jv \<Rightarrow> jv" where
  "merge_rules a b = JObj [(''rules'', JObj (rules_of a @ rules_of b))]"

definition applies :: "(string \<Rightarrow> string \<Rightarrow> bool) \<Rightarrow> string \<Rightarrow> jv \<Rightarrow> bool" where
  "applies glob file layer =
     (case get ''files'' layer of
        None \<Rightarrow> True
      | Some (JArr ps) \<Rightarrow> list_ex (\<lambda>p. glob p file) (List.map_filter str_of ps)
      | Some _ \<Rightarrow> False)"

definition effective :: "(string \<Rightarrow> string \<Rightarrow> bool) \<Rightarrow> jv list \<Rightarrow> string \<Rightarrow> jv" where
  "effective glob layers file = foldl merge_rules (JObj []) (filter (applies glob file) layers)"

definition setting :: "string \<Rightarrow> jv \<Rightarrow> jv option" where
  "setting k layer = get_in [''rules'', k] layer"

text \<open>A rule entry with options is the array \<^verbatim>\<open>[severity, options]\<close>; this reads one
  option of it.\<close>

fun rule_option :: "string \<Rightarrow> jv \<Rightarrow> jv option" where
  "rule_option name (JArr (severity # options # rest)) = get name options"
| "rule_option name _ = None"

subsection \<open>Auxiliary notions for the proofs\<close>

text \<open>Segments that are non-empty and free of separators; the normalised segments of the
  configuration module's directory.\<close>

definition clean :: "string list \<Rightarrow> bool" where
  "clean xs = (\<forall>x\<in>set xs. x \<noteq> [] \<and> CHR ''/'' \<notin> set x)"

definition package_segments :: "string \<Rightarrow> string list" where
  "package_segments dn = normalize_segments False (split_slash dn)"

text \<open>The normalised directory of the configuration module as a string, empty for the
  root directory, so that every directory of the table is this string followed by
  \<^verbatim>\<open>/src\<close>, \<^verbatim>\<open>/src/...\<close> or \<^verbatim>\<open>/public\<close>.\<close>

definition package_root :: "string \<Rightarrow> string" where
  "package_root dn =
     (if package_segments dn = [] then [] else CHR ''/'' # join_slash (package_segments dn))"

text \<open>The symbolic prefixes of the table, in order.\<close>

definition alias_prefixes :: "string list" where
  "alias_prefixes = [''@'', ''@hooks'', ''@lib'', ''@context'', ''@pages'', ''@constants'', ''@api'',
      ''@query'', ''@store'', ''@public'']"

section \<open>Properties of the resolver's scan\<close>

lemma select_snoc: "select_entry (tbl @ [e]) s = scan_step s e (select_entry tbl s)"
  by (simp add: select_entry_def)

lemma select_None: "(select_entry tbl s = None) = (\<forall>e\<in>set tbl. \<not> matches (fst e) s)"
proof (induction tbl rule: rev_induct)
  case Nil
  show ?case by (simp add: select_entry_def)
next
  case (snoc x xs)
  then show ?case
    by (auto simp: select_snoc scan_step_def split: option.splits)
qed

lemma select_Some:
  "select_entry tbl s = Some e \<Longrightarrow>
     e \<in> set tbl \<and> matches (fst e) s \<and>
     (\<forall>e'\<in>set tbl. matches (fst e') s \<longrightarrow> length (fst e') \<le> length (fst e))"
proof (induction tbl arbitrary: e rule: rev_induct)
  case Nil
  then show ?case by (simp add: select_entry_def)
next
  case (snoc x xs)
  show ?case
  proof (cases "select_entry xs s")
    case None
    with snoc.prems have "e = x" "matches (fst x) s"
      by (auto simp: select_snoc scan_step_def split: if_splits)
    moreover from None have "\<forall>e'\<in>set xs. \<not> matches (fst e') s"
      by (simp add: select_None)
    ultimately show ?thesis by auto
  next
    case (Some b)
    note ih = snoc.IH [OF Some]
    show ?thesis
    proof (cases "matches (fst x) s \<and> length (fst b) \<le> length (fst x)")
      case True
      with snoc.prems Some have "e = x"
        by (simp add: select_snoc scan_step_def)
      with True ih show ?thesis by fastforce
    next
      case False
      with snoc.prems Some have "e = b"
        by (auto simp: select_snoc scan_step_def split: if_splits)
      with False ih show ?thesis by fastforce
    qed
  qed
qed

lemma select_unique:
  assumes "e \<in> set tbl" and "matches (fst e) s"
    and "\<forall>e'\<in>set tbl. matches (fst e') s \<longrightarrow> e' = e \<or> length (fst e') < length (fst e)"
  shows "select_entry tbl s = Some e"
proof (cases "select_entry tbl s")
  case None
  with assms(1,2) show ?thesis by (auto simp: select_None)
next
  case (Some b)
  from select_Some [OF Some] assms show ?thesis
    using Some by (metis leD)
qed

section \<open>Properties of path.resolve and of the table it builds\<close>

lemma split_slash_nonempty: "split_slash p \<noteq> []"
  by (induction p) (auto split: list.splits)

lemma split_append: "split_slash (a @ CHR ''/'' # b) = split_slash a @ split_slash b"
proof (induction a)
  case Nil
  show ?case by simp
next
  case (Cons c a)
  then show ?case
    using split_slash_nonempty [of a] by (auto split: list.splits)
qed

lemma split_no_slash: "x \<in> set (split_slash p) \<Longrightarrow> CHR ''/'' \<notin> set x"
proof (induction p arbitrary: x)
  case Nil
  then show ?case by simp
next
  case (Cons c p)
  then show ?case
    by (auto split: if_splits list.splits)
qed

lemma split_slashfree: "CHR ''/'' \<notin> set x \<Longrightarrow> split_slash x = [x]"
  by (induction x) auto

lemma segments_Nil: "segments [] = []"
  by (simp add: segments_def)

lemma segments_append: "segments (a @ CHR ''/'' # b) = segments a @ segments b"
  by (simp add: segments_def split_append)

lemma segments_slashfree: "x \<noteq> [] \<Longrightarrow> CHR ''/'' \<notin> set x \<Longrightarrow> segments x = [x]"
  by (simp add: segments_def split_slashfree)

lemma segments_join: "clean xs \<Longrightarrow> segments (join_slash xs) = xs"
proof (induction xs rule: join_slash.induct)
  case 1
  show ?case by (simp add: segments_Nil)
next
  case (2 s)
  then show ?case by (simp add: clean_def segments_slashfree)
next
  case (3 s t ts)
  then show ?case
    by (simp add: clean_def segments_append segments_slashfree)
qed

lemma segments_rooted: "clean xs \<Longrightarrow> segments (CHR ''/'' # join_slash xs) = xs"
  using segments_append [of "[]" "join_slash xs"] by (simp add: segments_Nil segments_join)

lemma norm_step_clean:
  "clean st \<Longrightarrow> CHR ''/'' \<notin> set seg \<Longrightarrow> clean (norm_step up seg st)"
  by (auto simp: clean_def split: list.splits)

lemma fold_norm_clean:
  "clean st \<Longrightarrow> \<forall>x\<in>set segs. CHR ''/'' \<notin> set x \<Longrightarrow> clean (fold (norm_step up) segs st)"
proof (induction segs arbitrary: st)
  case Nil
  then show ?case by simp
next
  case (Cons a segs)
  from Cons.prems have "clean (norm_step up a st)"
    by (intro norm_step_clean) simp_all
  with Cons show ?case by simp
qed

lemma clean_rev: "clean (rev xs) = clean xs"
  by (simp add: clean_def)

lemma package_segments_clean: "clean (package_segments dn)"
  unfolding package_segments_def normalize_segments_def clean_rev
  by (rule fold_norm_clean) (simp_all add: clean_def split_no_slash)

lemma is_absolute_nonempty: "is_absolute dn \<Longrightarrow> dn \<noteq> []"
  by (cases dn) simp_all

lemma resolve_package:
  assumes "is_absolute dn"
  shows "path_resolve cwd [dn] = CHR ''/'' # join_slash (package_segments dn)"
proof -
  have "resolve_loop (rev [dn] @ [cwd]) [] False = (dn @ ''/'', True)"
    using assms is_absolute_nonempty [OF assms] by simp
  moreover have "split_slash (dn @ ''/'') = split_slash dn @ [[]]"
    using split_append [of dn "[]"] by simp
  ultimately show ?thesis
    by (simp add: path_resolve_def normalize_segments_def package_segments_def)
qed

lemma resolve_relative:
  assumes "is_absolute dn" and "rel \<noteq> []" and "\<not> is_absolute rel"
  shows "path_resolve cwd [dn, rel] =
           CHR ''/'' # join_slash (rev (fold (norm_step False) (split_slash rel) (rev (package_segments dn))))"
proof -
  have "resolve_loop (rev [dn, rel] @ [cwd]) [] False = (dn @ ''/'' @ rel @ ''/'', True)"
    using assms is_absolute_nonempty [OF assms(1)] by simp
  moreover have "split_slash (dn @ ''/'' @ rel @ ''/'') = split_slash dn @ split_slash rel @ [[]]"
    using split_append [of dn "rel @ ''/''"] split_append [of rel "[]"] by simp
  ultimately show ?thesis
    by (simp add: path_resolve_def normalize_segments_def package_segments_def)
qed

lemma table_closed_form:
  assumes "is_absolute dn"
  shows "table dn cwd =
           map (\<lambda>(p, ys). (p, CHR ''/'' # join_slash (package_segments dn @ ys))) relative_dirs"
  by (simp add: table_def alias_table_def main_layer_def settings_def alias_map_def
      List.map_filter_simps resolve_relative [OF assms] relative_dirs_def)

lemma table_prefixes:
  "map fst (table dirname cwd) =
     [''@'', ''@hooks'', ''@lib'', ''@context'', ''@pages'', ''@constants'', ''@api'',
      ''@query'', ''@store'', ''@public'']"
  by (simp add: table_def alias_table_def main_layer_def settings_def alias_map_def
      List.map_filter_simps)

lemma table_length: "length (table dirname cwd) = 10"
  using arg_cong [OF table_prefixes [of dirname cwd], of length] by simp

lemma alias_extensions: "extensions_at ''alias'' (main_layer dirname cwd) = [''.js'', ''.jsx'']"
  by (simp add: extensions_at_def main_layer_def settings_def List.map_filter_simps)

lemma segments_package:
  "is_absolute dn \<Longrightarrow> segments (path_resolve cwd [dn]) = package_segments dn"
  by (simp add: resolve_package segments_rooted package_segments_clean)

lemma clean_append: "clean (xs @ ys) = (clean xs \<and> clean ys)"
  by (auto simp: clean_def)

lemma relative_dirs_clean: "e \<in> set relative_dirs \<Longrightarrow> clean (snd e)"
  by (auto simp: relative_dirs_def clean_def)

lemma table_segments:
  assumes "is_absolute dn"
  shows "map (\<lambda>e. segments (snd e)) (table dn cwd) =
           map (\<lambda>e. package_segments dn @ snd e) relative_dirs"
  by (simp add: table_closed_form [OF assms] segments_rooted clean_append
      package_segments_clean relative_dirs_clean split_beta)

text \<open>With a relative module directory the table would follow the working directory: the
  model of \<^verbatim>\<open>path.resolve\<close> does read \<open>cwd\<close>.\<close>

lemma relative_dirname_depends_on_cwd: "table ''cfg'' ''/a'' \<noteq> table ''cfg'' ''/b''"
  by code_simp

section \<open>Properties of the resolver on the configured table\<close>

lemma table_alias_prefixes: "map fst (table dn cwd) = alias_prefixes"
  by (simp add: table_prefixes alias_prefixes_def)



lemma table_fst: "e \<in> set (table dn cwd) \<Longrightarrow> fst e \<in> set alias_prefixes"
  using table_alias_prefixes [of dn cwd] by (metis image_eqI set_map)

lemma table_functional:
  assumes "e \<in> set (table dn cwd)" and "e' \<in> set (table dn cwd)" and "fst e = fst e'"
  shows "e = e'"
proof -
  have "distinct (map fst (table dn cwd))"
    by (simp add: table_prefixes)
  with assms show ?thesis
    by (metis eq_key_imp_eq_value prod.collapse)
qed

lemma takeWhile_segment:
  "CHR ''/'' \<notin> set p \<Longrightarrow> takeWhile (\<lambda>c. c \<noteq> CHR ''/'') (p @ CHR ''/'' # r) = p"
  by (induction p) auto

lemma takeWhile_slashfree:
  "CHR ''/'' \<notin> set p \<Longrightarrow> takeWhile (\<lambda>c. c \<noteq> CHR ''/'') p = p"
  by (induction p) auto

lemma matches_first_segment:
  assumes "CHR ''/'' \<notin> set p"
  shows "matches p s = (takeWhile (\<lambda>c. c \<noteq> CHR ''/'') s = p)"
proof
  assume "matches p s"
  then consider "s = p" | r where "s = p @ CHR ''/'' # r"
    by (auto simp: matches_def elim: prefixE)
  then show "takeWhile (\<lambda>c. c \<noteq> CHR ''/'') s = p"
  proof cases
    case 1
    with assms show ?thesis by (simp add: takeWhile_slashfree)
  next
    case 2
    with assms show ?thesis by (simp add: takeWhile_segment)
  qed
next
  assume t: "takeWhile (\<lambda>c. c \<noteq> CHR ''/'') s = p"
  have s: "s = p @ dropWhile (\<lambda>c. c \<noteq> CHR ''/'') s"
    using takeWhile_dropWhile_id [of "\<lambda>c. c \<noteq> CHR ''/''" s] t by simp
  show "matches p s"
  proof (cases "dropWhile (\<lambda>c. c \<noteq> CHR ''/'') s")
    case Nil
    with s show ?thesis by (simp add: matches_def)
  next
    case (Cons c cs)
    with hd_dropWhile [of "\<lambda>c. c \<noteq> CHR ''/''" s] have "c = CHR ''/''" by simp
    with s Cons have "s = (p @ ''/'') @ cs" by simp
    then show ?thesis unfolding matches_def by (metis prefixI)
  qed
qed

lemma prefixes_slashfree_all: "list_all (\<lambda>p. CHR ''/'' \<notin> set p) alias_prefixes"
  by code_simp

lemma prefixes_slashfree:
  assumes "p \<in> set alias_prefixes"
  shows "CHR ''/'' \<notin> set p"
proof -
  from prefixes_slashfree_all have "\<forall>p\<in>set alias_prefixes. CHR ''/'' \<notin> set p"
    by (simp only: list_all_iff)
  with assms show ?thesis by blast
qed

lemma table_matches:
  "e \<in> set (table dn cwd) \<Longrightarrow>
     matches (fst e) s = (takeWhile (\<lambda>c. c \<noteq> CHR ''/'') s = fst e)"
  by (rule matches_first_segment) (rule prefixes_slashfree [OF table_fst])

lemma table_select:
  assumes e: "e \<in> set (table dn cwd)" and m: "matches (fst e) s"
  shows "select_entry (table dn cwd) s = Some e"
proof (rule select_unique [OF e m], intro ballI impI)
  fix e'
  assume e': "e' \<in> set (table dn cwd)" and m': "matches (fst e') s"
  from m m' have "fst e' = fst e"
    by (simp add: table_matches [OF e] table_matches [OF e'])
  with table_functional [OF e' e] show "e' = e \<or> length (fst e') < length (fst e)"
    by simp
qed

lemma table_no_match:
  "(select_entry (table dn cwd) s = None) =
     (takeWhile (\<lambda>c. c \<noteq> CHR ''/'') s \<notin> set (map fst (table dn cwd)))"
proof -
  have "(\<forall>e\<in>set (table dn cwd). \<not> matches (fst e) s) =
          (\<forall>e\<in>set (table dn cwd). takeWhile (\<lambda>c. c \<noteq> CHR ''/'') s \<noteq> fst e)"
    by (simp add: table_matches)
  then show ?thesis by (auto simp: select_None)
qed

lemma resolve_NotAnAlias: "(resolve tbl exts fs s = NotAnAlias) = (select_entry tbl s = None)"
  by (simp add: resolve_def split: option.splits)

lemma resolve_selected:
  assumes "select_entry tbl s = Some e"
  shows "resolve tbl exts fs s =
           (case find fs (map (\<lambda>x. snd e @ drop (length (fst e)) s @ x) exts) of
              None \<Rightarrow> Unresolved | Some f \<Rightarrow> Resolved f)"
  using assms by (simp add: resolve_def candidates_def)

lemma find_map_first:
  "(find P (map g xs) = Some f) =
     (\<exists>i<length xs. f = g (xs ! i) \<and> P f \<and> (\<forall>j<i. \<not> P (g (xs ! j))))"
proof -
  have "(find P (map g xs) = Some f) =
          (\<exists>i<length (map g xs). P (map g xs ! i) \<and> f = map g xs ! i \<and>
             (\<forall>j<i. \<not> P (map g xs ! j)))"
    by (rule find_Some_iff)
  also have "\<dots> = (\<exists>i<length xs. f = g (xs ! i) \<and> P f \<and> (\<forall>j<i. \<not> P (g (xs ! j))))"
    by (intro ex_cong1) auto
  finally show ?thesis .
qed

lemma find_map_none: "(find P (map g xs) = None) = (\<forall>x\<in>set xs. \<not> P (g x))"
  by (auto simp: find_None_iff)

lemma resolve_Resolved:
  assumes "select_entry tbl s = Some e"
  shows "(resolve tbl exts fs s = Resolved f) =
           (\<exists>i<length exts. f = snd e @ drop (length (fst e)) s @ exts ! i \<and> fs f \<and>
              (\<forall>j<i. \<not> fs (snd e @ drop (length (fst e)) s @ exts ! j)))"
proof -
  have "(resolve tbl exts fs s = Resolved f) =
          (find fs (map (\<lambda>x. snd e @ drop (length (fst e)) s @ x) exts) = Some f)"
    unfolding resolve_selected [OF assms] by (simp split: option.splits)
  then show ?thesis by (simp only: find_map_first)
qed

lemma resolve_Unresolved:
  assumes "select_entry tbl s = Some e"
  shows "(resolve tbl exts fs s = Unresolved) =
           (\<forall>x\<in>set exts. \<not> fs (snd e @ drop (length (fst e)) s @ x))"
proof -
  have "(resolve tbl exts fs s = Unresolved) =
          (find fs (map (\<lambda>x. snd e @ drop (length (fst e)) s @ x) exts) = None)"
    unfolding resolve_selected [OF assms] by (simp split: option.splits)
  then show ?thesis by (simp only: find_map_none)
qed

lemma resolve_configured_selected:
  assumes "select_entry (table dn cwd) s = Some e"
  shows "resolve_configured dn cwd fs s =
           (if fs (snd e @ drop (length (fst e)) s @ ''.js'')
            then Resolved (snd e @ drop (length (fst e)) s @ ''.js'')
            else if fs (snd e @ drop (length (fst e)) s @ ''.jsx'')
            then Resolved (snd e @ drop (length (fst e)) s @ ''.jsx'')
            else Unresolved)"
  by (simp add: resolve_configured_def resolve_selected [OF assms] alias_extensions)

lemma join_append:
  "ys \<noteq> [] \<Longrightarrow>
     CHR ''/'' # join_slash (N @ ys) =
       (if N = [] then [] else CHR ''/'' # join_slash N) @ CHR ''/'' # join_slash ys"
proof (induction N rule: join_slash.induct)
  case 1
  show ?case by simp
next
  case (2 s)
  then show ?case by (cases ys) simp_all
next
  case (3 s t ts)
  then show ?case by simp
qed

lemma table_string_form:
  assumes "is_absolute dn"
  shows "table dn cwd =
           map (\<lambda>(p, rel). (p, package_root dn @ rel))
             [(''@'', ''/src''),
              (''@hooks'', ''/src/hooks''),
              (''@lib'', ''/src/lib''),
              (''@context'', ''/src/lib/context''),
              (''@pages'', ''/src/pages''),
              (''@constants'', ''/src/lib/constants''),
              (''@api'', ''/src/services/api''),
              (''@query'', ''/src/services/query''),
              (''@store'', ''/src/services/store''),
              (''@public'', ''/public'')]"
  by (simp add: table_closed_form [OF assms] relative_dirs_def join_append package_root_def)


lemma table_entry_form:
  assumes "is_absolute dn" and "(P, D) \<in> set (table dn cwd)"
  obtains ys where "(P, ys) \<in> set relative_dirs" and "D = CHR ''/'' # join_slash (package_segments dn @ ys)"
    and "segments D = package_segments dn @ ys"
proof -
  from assms obtain ys where m: "(P, ys) \<in> set relative_dirs"
    and d: "D = CHR ''/'' # join_slash (package_segments dn @ ys)"
    by (auto simp: table_closed_form)
  from relative_dirs_clean [OF m] have "clean (package_segments dn @ ys)"
    by (simp add: clean_append package_segments_clean)
  with d have "segments D = package_segments dn @ ys"
    by (simp add: segments_rooted)
  with m d that show thesis by blast
qed

lemma relative_pairs_all:
  "list_all (\<lambda>a. list_all (\<lambda>b. \<not> prefix (fst a) (fst b) \<and> \<not> prefix (fst b) (fst a) \<longrightarrow>
       prefix (snd b) (snd a @ [''x.js'']) = prefix (snd b) (snd a) \<and>
       prefix (snd b) (snd a @ [''x.jsx'']) = prefix (snd b) (snd a) \<and>
       prefix (snd b) (snd a) = (fst b = ''@lib'' \<and> (fst a = ''@context'' \<or> fst a = ''@constants'')))
     relative_dirs) relative_dirs"
  by code_simp

lemma relative_pairs:
  assumes "a \<in> set relative_dirs" and "b \<in> set relative_dirs"
    and "\<not> prefix (fst a) (fst b)" and "\<not> prefix (fst b) (fst a)"
  shows "prefix (snd b) (snd a @ [''x.js'']) = prefix (snd b) (snd a)"
    and "prefix (snd b) (snd a @ [''x.jsx'']) = prefix (snd b) (snd a)"
    and "prefix (snd b) (snd a) = (fst b = ''@lib'' \<and> (fst a = ''@context'' \<or> fst a = ''@constants''))"
proof -
  from relative_pairs_all
  have "\<forall>a\<in>set relative_dirs. \<forall>b\<in>set relative_dirs.
          \<not> prefix (fst a) (fst b) \<and> \<not> prefix (fst b) (fst a) \<longrightarrow>
       prefix (snd b) (snd a @ [''x.js'']) = prefix (snd b) (snd a) \<and>
       prefix (snd b) (snd a @ [''x.jsx'']) = prefix (snd b) (snd a) \<and>
       prefix (snd b) (snd a) = (fst b = ''@lib'' \<and> (fst a = ''@context'' \<or> fst a = ''@constants''))"
    by (simp only: list_all_iff)
  with assms show "prefix (snd b) (snd a @ [''x.js'']) = prefix (snd b) (snd a)"
    and "prefix (snd b) (snd a @ [''x.jsx'']) = prefix (snd b) (snd a)"
    and "prefix (snd b) (snd a) = (fst b = ''@lib'' \<and> (fst a = ''@context'' \<or> fst a = ''@constants''))"
    by blast+
qed

lemma sample_table:
  "table ''/opt/eslint-config'' ''/home/dev/app'' =
     [(''@'', ''/opt/eslint-config/src''),
      (''@hooks'', ''/opt/eslint-config/src/hooks''),
      (''@lib'', ''/opt/eslint-config/src/lib''),
      (''@context'', ''/opt/eslint-config/src/lib/context''),
      (''@pages'', ''/opt/eslint-config/src/pages''),
      (''@constants'', ''/opt/eslint-config/src/lib/constants''),
      (''@api'', ''/opt/eslint-config/src/services/api''),
      (''@query'', ''/opt/eslint-config/src/services/query''),
      (''@store'', ''/opt/eslint-config/src/services/store''),
      (''@public'', ''/opt/eslint-config/public'')]"
  by code_simp

lemma resolve_signals:
  "resolve tbl exts fs s = NotAnAlias \<or> resolve tbl exts fs s = Unresolved \<or>
     (\<exists>f. resolve tbl exts fs s = Resolved f \<and> fs f)"
  by (auto simp: resolve_def find_Some_iff split: option.splits)




section \<open>Properties of the merge\<close>

lemma setting_rules_of: "setting k l = map_of (rev (rules_of l)) k"
  by (cases l) (auto simp: setting_def rules_of_def split: option.splits jv.splits)

lemma rules_of_merge: "rules_of (merge_rules a b) = rules_of a @ rules_of b"
  by (simp add: merge_rules_def rules_of_def)

lemma setting_merge:
  "setting k (merge_rules a b) = (case setting k b of Some v \<Rightarrow> Some v | None \<Rightarrow> setting k a)"
  by (simp add: setting_rules_of rules_of_merge map_add_def split: option.splits)

lemma setting_foldl_snoc:
  "setting k (foldl merge_rules acc (ls @ [l])) =
     (case setting k l of Some v \<Rightarrow> Some v | None \<Rightarrow> setting k (foldl merge_rules acc ls))"
  by (simp add: setting_merge)

lemma applies_main: "applies glob file (main_layer dn cwd)"
  by (simp add: applies_def main_layer_def)

lemma applies_jsx: "applies glob file jsx_layer = glob ''**/*.jsx'' file"
  by (simp add: applies_def jsx_layer_def List.map_filter_simps)

lemma applies_js: "applies glob file js_layer = glob ''**/*.js'' file"
  by (simp add: applies_def js_layer_def List.map_filter_simps)

lemma jsx_setting:
  "setting ''unicorn/filename-case'' jsx_layer =
     Some (JArr
       [JStr ''error'',
        JObj [(''cases'', JObj [(''pascalCase'', JBool True)]),
              (''ignore'', JArr
                 [JRegex (''^index'' @ bsl @ ''.jsx$''),
                  JRegex (''^App'' @ bsl @ ''.jsx$''),
                  JRegex (''^main'' @ bsl @ ''.jsx$''),
                  JRegex (''^setupTests'' @ bsl @ ''.jsx$''),
                  JRegex (''^.*'' @ bsl @ ''.test'' @ bsl @ ''.jsx$'')])]])"
  by (simp add: setting_def jsx_layer_def)

lemma main_setting:
  "setting ''unicorn/filename-case'' (main_layer dn cwd) =
     Some (JArr
       [JStr ''error'',
        JObj [(''cases'', JObj [(''camelCase'', JBool True), (''pascalCase'', JBool True)]),
              (''ignore'', JArr
                 [JRegex (''^[A-Z]+'' @ bsl @ ''..*$''),
                  JRegex (''.*'' @ bsl @ ''.component'' @ bsl @ ''.jsx?$''),
                  JRegex (''.*'' @ bsl @ ''.hook'' @ bsl @ ''.js$''),
                  JRegex (''.*'' @ bsl @ ''.api'' @ bsl @ ''.js$''),
                  JRegex (''.*'' @ bsl @ ''.query'' @ bsl @ ''.js$''),
                  JRegex (''.*'' @ bsl @ ''.slice'' @ bsl @ ''.js$''),
                  JRegex (''.*'' @ bsl @ ''.test'' @ bsl @ ''.jsx?$''),
                  JRegex (''.*'' @ bsl @ ''.story'' @ bsl @ ''.jsx?$''),
                  JRegex (''.*'' @ bsl @ ''.config'' @ bsl @ ''.js$''),
                  JRegex (''.*'' @ bsl @ ''.constant'' @ bsl @ ''.js$'')])]])"
  by (simp add: setting_def main_layer_def rules_def)

lemma effective_jsx:
  assumes "glob ''**/*.jsx'' file" and "\<not> glob ''**/*.js'' file"
  shows "setting k (effective glob (config dn cwd recommended extended) file) =
           (case setting k jsx_layer of Some v \<Rightarrow> Some v
            | None \<Rightarrow> setting k (foldl merge_rules (JObj [])
                (filter (applies glob file) ([ignores_layer, recommended] @ extended)
                  @ [main_layer dn cwd])))"
proof -
  have "filter (applies glob file) (config dn cwd recommended extended) =
          (filter (applies glob file) ([ignores_layer, recommended] @ extended)
             @ [main_layer dn cwd]) @ [jsx_layer]"
    using assms by (simp add: config_def applies_main applies_jsx applies_js)
  then show ?thesis
    by (simp only: effective_def setting_foldl_snoc)
qed

section \<open>The claims settled on the configuration itself\<close>

text \<open>
  C6. In the alias table that the configuration builds, every symbolic prefix is
  unique: the table has ten entries and no two of them have the same first component.
\<close>

theorem alias_prefixes_unique:
  "distinct (map fst (table dirname cwd)) \<and> length (table dirname cwd) = 10"
  by (simp add: table_def alias_table_def main_layer_def settings_def alias_map_def
      List.map_filter_simps)

text \<open>
  C10. The first layer of the exported list is the object whose only key is
  \<^verbatim>\<open>ignores\<close> (it has no rules, plugins, settings or languageOptions), and the
  extension list of the alias resolver is \<^verbatim>\<open>[".js", ".jsx"]\<close>, the same list as the
  node resolver's.
\<close>

theorem ignores_layer_and_extensions:
  "config dirname cwd recommended extended ! 0 = ignores_layer \<and>
   keys ignores_layer = [''ignores''] \<and>
   get ''rules'' ignores_layer = None \<and>
   get ''plugins'' ignores_layer = None \<and>
   get ''settings'' ignores_layer = None \<and>
   get ''languageOptions'' ignores_layer = None \<and>
   extensions_at ''alias'' (main_layer dirname cwd) = [''.js'', ''.jsx''] \<and>
   extensions_at ''node'' (main_layer dirname cwd) = extensions_at ''alias'' (main_layer dirname cwd)"
  by (simp add: config_def ignores_layer_def extensions_at_def main_layer_def settings_def
      List.map_filter_simps)

text \<open>
  C7. Every physical directory of the table is \<^verbatim>\<open>path.resolve(__dirname, rel)\<close>. As
  the module's directory is an absolute path, each one is the normalised module
  directory followed by \<^verbatim>\<open>/src\<close>, \<^verbatim>\<open>/src/...\<close> or \<^verbatim>\<open>/public\<close>: it is anchored at the
  configuration file's own location and the working directory is never consulted. So
  two loads that differ only in the working directory build the same table (and the
  same exported configuration).
\<close>

theorem table_independent_of_cwd:
  assumes "is_absolute dirname"
  shows "table dirname cwd1 = table dirname cwd2 \<and>
         config dirname cwd1 recommended extended = config dirname cwd2 recommended extended \<and>
         path_resolve cwd1 [dirname] = CHR ''/'' # join_slash (package_segments dirname) \<and>
         table dirname cwd1 =
           map (\<lambda>(p, rel). (p, package_root dirname @ rel))
             [(''@'', ''/src''),
              (''@hooks'', ''/src/hooks''),
              (''@lib'', ''/src/lib''),
              (''@context'', ''/src/lib/context''),
              (''@pages'', ''/src/pages''),
              (''@constants'', ''/src/lib/constants''),
              (''@api'', ''/src/services/api''),
              (''@query'', ''/src/services/query''),
              (''@store'', ''/src/services/store''),
              (''@public'', ''/public'')]"
proof (intro conjI)
  show "table dirname cwd1 = table dirname cwd2"
    by (simp add: table_closed_form [OF assms])
  show "config dirname cwd1 recommended extended = config dirname cwd2 recommended extended"
    by (simp add: config_def main_layer_def settings_def alias_map_def resolve_relative [OF assms])
  show "path_resolve cwd1 [dirname] = CHR ''/'' # join_slash (package_segments dirname)"
    by (rule resolve_package [OF assms])
  show "table dirname cwd1 =
           map (\<lambda>(p, rel). (p, package_root dirname @ rel))
             [(''@'', ''/src''),
              (''@hooks'', ''/src/hooks''),
              (''@lib'', ''/src/lib''),
              (''@context'', ''/src/lib/context''),
              (''@pages'', ''/src/pages''),
              (''@constants'', ''/src/lib/constants''),
              (''@api'', ''/src/services/api''),
              (''@query'', ''/src/services/query''),
              (''@store'', ''/src/services/store''),
              (''@public'', ''/public'')]"
    by (rule table_string_form [OF assms])
qed

theorem table_independent_of_cwd_witness:
  "is_absolute ''/opt/eslint-config'' \<and>
   table ''/opt/eslint-config'' ''/home/dev/app'' = table ''/opt/eslint-config'' ''/srv/ci'' \<and>
   path_resolve ''/home/dev/app'' [''/opt/eslint-config''] = ''/opt/eslint-config'' \<and>
   table ''/opt/eslint-config'' ''/home/dev/app'' =
     [(''@'', ''/opt/eslint-config/src''),
      (''@hooks'', ''/opt/eslint-config/src/hooks''),
      (''@lib'', ''/opt/eslint-config/src/lib''),
      (''@context'', ''/opt/eslint-config/src/lib/context''),
      (''@pages'', ''/opt/eslint-config/src/pages''),
      (''@constants'', ''/opt/eslint-config/src/lib/constants''),
      (''@api'', ''/opt/eslint-config/src/services/api''),
      (''@query'', ''/opt/eslint-config/src/services/query''),
      (''@store'', ''/opt/eslint-config/src/services/store''),
      (''@public'', ''/opt/eslint-config/public'')]"
proof -
  have ab: "is_absolute ''/opt/eslint-config''" by simp
  have ps: "package_segments ''/opt/eslint-config'' = [''opt'', ''eslint-config'']"
    by code_simp
  have pr: "package_root ''/opt/eslint-config'' = ''/opt/eslint-config''"
    by (simp add: package_root_def ps)
  note w = table_independent_of_cwd [OF ab, where ?cwd1.0 = "''/home/dev/app''"
      and ?cwd2.0 = "''/srv/ci''" and recommended = "JObj []" and extended = "[]"]
  from w have e: "table ''/opt/eslint-config'' ''/home/dev/app'' = table ''/opt/eslint-config'' ''/srv/ci''"
    by (rule conjunct1)
  from w have "path_resolve ''/home/dev/app'' [''/opt/eslint-config'']
                 = CHR ''/'' # join_slash (package_segments ''/opt/eslint-config'')"
    by blast
  then have r: "path_resolve ''/home/dev/app'' [''/opt/eslint-config''] = ''/opt/eslint-config''"
    by (simp add: ps)
  from w have "table ''/opt/eslint-config'' ''/home/dev/app'' =
           map (\<lambda>(p, rel). (p, package_root ''/opt/eslint-config'' @ rel))
             [(''@'', ''/src''),
              (''@hooks'', ''/src/hooks''),
              (''@lib'', ''/src/lib''),
              (''@context'', ''/src/lib/context''),
              (''@pages'', ''/src/pages''),
              (''@constants'', ''/src/lib/constants''),
              (''@api'', ''/src/services/api''),
              (''@query'', ''/src/services/query''),
              (''@store'', ''/src/services/store''),
              (''@public'', ''/public'')]"
    by blast
  then have t: "table ''/opt/eslint-config'' ''/home/dev/app'' =
     [(''@'', ''/opt/eslint-config/src''),
      (''@hooks'', ''/opt/eslint-config/src/hooks''),
      (''@lib'', ''/opt/eslint-config/src/lib''),
      (''@context'', ''/opt/eslint-config/src/lib/context''),
      (''@pages'', ''/opt/eslint-config/src/pages''),
      (''@constants'', ''/opt/eslint-config/src/lib/constants''),
      (''@api'', ''/opt/eslint-config/src/services/api''),
      (''@query'', ''/opt/eslint-config/src/services/query''),
      (''@store'', ''/opt/eslint-config/src/services/store''),
      (''@public'', ''/opt/eslint-config/public'')]"
    by (simp add: pr)
  from ab e r t show ?thesis by blast
qed

text \<open>
  C9. Every physical directory of the table lies inside the directory tree of the
  configuration package: its segments are the segments of the module's directory
  followed by \<^verbatim>\<open>src\<close>, by a subdirectory of \<^verbatim>\<open>src\<close>, or by \<^verbatim>\<open>public\<close>. (Any path
  a resolver builds from an entry's directory therefore names a file of that tree.)
\<close>

theorem directories_inside_package:
  assumes "is_absolute dirname"
  shows "(\<forall>e\<in>set (table dirname cwd). inside (path_resolve cwd [dirname]) (snd e)) \<and>
         map (\<lambda>e. drop (length (segments (path_resolve cwd [dirname]))) (segments (snd e)))
           (table dirname cwd) = map snd relative_dirs"
proof -
  let ?N = "package_segments dirname"
  have seg: "map (\<lambda>e. segments (snd e)) (table dirname cwd) = map (\<lambda>e. ?N @ snd e) relative_dirs"
    by (rule table_segments [OF assms])
  have pk: "segments (path_resolve cwd [dirname]) = ?N"
    by (rule segments_package [OF assms])
  have "\<forall>x\<in>set (map (\<lambda>e. segments (snd e)) (table dirname cwd)). prefix ?N x"
    unfolding seg by auto
  then have a: "\<forall>e\<in>set (table dirname cwd). inside (path_resolve cwd [dirname]) (snd e)"
    by (simp add: inside_def pk)
  have "map (\<lambda>e. drop (length ?N) (segments (snd e))) (table dirname cwd) =
          map (drop (length ?N)) (map (\<lambda>e. segments (snd e)) (table dirname cwd))"
    by simp
  also have "\<dots> = map snd relative_dirs"
    unfolding seg by simp
  finally show ?thesis using a by (simp add: pk)
qed

theorem directories_inside_package_witness:
  "is_absolute ''/opt/eslint-config'' \<and>
   inside (path_resolve ''/home/dev/app'' [''/opt/eslint-config''])
     (snd (table ''/opt/eslint-config'' ''/home/dev/app'' ! 3)) \<and>
   snd (table ''/opt/eslint-config'' ''/home/dev/app'' ! 3) = ''/opt/eslint-config/src/lib/context''"
proof -
  have t: "table ''/opt/eslint-config'' ''/home/dev/app'' ! 3 =
             (''@context'', ''/opt/eslint-config/src/lib/context'')"
    by code_simp
  have m: "table ''/opt/eslint-config'' ''/home/dev/app'' ! 3
             \<in> set (table ''/opt/eslint-config'' ''/home/dev/app'')"
    by (rule nth_mem) (simp add: table_length)
  have h: "is_absolute ''/opt/eslint-config''" by simp
  from directories_inside_package [OF h, of "''/home/dev/app''"] m t h show ?thesis
    by auto
qed

section \<open>The claims about the resolver\<close>




text \<open>
  C3. For a specifier that matches an alias prefix, the candidates are the selected
  directory, the rest of the specifier and each extension of the list, in the list's
  order: the result is the first candidate that exists (no earlier one does), and it is
  \<open>Unresolved\<close> exactly when none exists. With the configured list
  \<^verbatim>\<open>[".js", ".jsx"]\<close> the \<^verbatim>\<open>.js\<close> file is chosen whenever it exists, also when the
  \<^verbatim>\<open>.jsx\<close> file exists too.
\<close>

theorem extensions_tried_in_order:
  "(select_entry tbl s = Some e \<longrightarrow>
      (resolve tbl exts fs s = Resolved f) =
         (\<exists>i<length exts. f = snd e @ drop (length (fst e)) s @ exts ! i \<and> fs f \<and>
            (\<forall>j<i. \<not> fs (snd e @ drop (length (fst e)) s @ exts ! j))) \<and>
      (resolve tbl exts fs s = Unresolved) =
         (\<forall>x\<in>set exts. \<not> fs (snd e @ drop (length (fst e)) s @ x))) \<and>
   (e' \<in> set (table dirname cwd) \<and> matches (fst e') s \<longrightarrow>
      (\<exists>e. select_entry (table dirname cwd) s = Some e \<and>
         resolve_configured dirname cwd fs s =
           (if fs (snd e @ drop (length (fst e)) s @ ''.js'')
            then Resolved (snd e @ drop (length (fst e)) s @ ''.js'')
            else if fs (snd e @ drop (length (fst e)) s @ ''.jsx'')
            then Resolved (snd e @ drop (length (fst e)) s @ ''.jsx'')
            else Unresolved)))"
proof (intro conjI impI)
  assume a: "select_entry tbl s = Some e"
  show "(resolve tbl exts fs s = Resolved f) =
         (\<exists>i<length exts. f = snd e @ drop (length (fst e)) s @ exts ! i \<and> fs f \<and>
            (\<forall>j<i. \<not> fs (snd e @ drop (length (fst e)) s @ exts ! j)))"
    by (rule resolve_Resolved [OF a])
  show "(resolve tbl exts fs s = Unresolved) =
         (\<forall>x\<in>set exts. \<not> fs (snd e @ drop (length (fst e)) s @ x))"
    by (rule resolve_Unresolved [OF a])
next
  assume "e' \<in> set (table dirname cwd) \<and> matches (fst e') s"
  then have "select_entry (table dirname cwd) s \<noteq> None"
    by (auto simp: select_None)
  then obtain e where e: "select_entry (table dirname cwd) s = Some e" by blast
  from resolve_configured_selected [OF e] e
  show "\<exists>e. select_entry (table dirname cwd) s = Some e \<and>
         resolve_configured dirname cwd fs s =
           (if fs (snd e @ drop (length (fst e)) s @ ''.js'')
            then Resolved (snd e @ drop (length (fst e)) s @ ''.js'')
            else if fs (snd e @ drop (length (fst e)) s @ ''.jsx'')
            then Resolved (snd e @ drop (length (fst e)) s @ ''.jsx'')
            else Unresolved)"
    by blast
qed

theorem extensions_tried_in_order_witness:
  "(''@hooks'', ''/opt/eslint-config/src/hooks'') \<in> set (table ''/opt/eslint-config'' ''/home/dev/app'') \<and>
   matches ''@hooks'' ''@hooks/useAuth'' \<and>
   select_entry (table ''/opt/eslint-config'' ''/home/dev/app'') ''@hooks/useAuth''
     = Some (''@hooks'', ''/opt/eslint-config/src/hooks'') \<and>
   resolve_configured ''/opt/eslint-config'' ''/home/dev/app''
     (\<lambda>f. f = ''/opt/eslint-config/src/hooks/useAuth.js'' \<or> f = ''/opt/eslint-config/src/hooks/useAuth.jsx'')
     ''@hooks/useAuth'' = Resolved ''/opt/eslint-config/src/hooks/useAuth.js''"
proof -
  let ?fs = "\<lambda>f. f = ''/opt/eslint-config/src/hooks/useAuth.js'' \<or>
                 f = ''/opt/eslint-config/src/hooks/useAuth.jsx''"
  let ?t = "table ''/opt/eslint-config'' ''/home/dev/app''"
  have m: "(''@hooks'', ''/opt/eslint-config/src/hooks'') \<in> set ?t"
    by (simp add: sample_table)
  have p: "matches ''@hooks'' ''@hooks/useAuth''" by (simp add: matches_def)
  have sel: "select_entry ?t ''@hooks/useAuth'' = Some (''@hooks'', ''/opt/eslint-config/src/hooks'')"
    by (rule table_select) (simp_all add: m matches_def)
  from extensions_tried_in_order [where tbl = ?t and s = "''@hooks/useAuth''"
      and e = "(''@hooks'', ''/opt/eslint-config/src/hooks'')" and exts = "[''.js'', ''.jsx'']"
      and fs = ?fs and f = "''/opt/eslint-config/src/hooks/useAuth.js''"
      and e' = "(''@hooks'', ''/opt/eslint-config/src/hooks'')"
      and dirname = "''/opt/eslint-config''" and cwd = "''/home/dev/app''"]
    m p sel
  show ?thesis by simp
qed

text \<open>
  C4. \<open>resolve\<close> returns \<open>NotAnAlias\<close> exactly for the specifiers that no prefix of the
  table matches. With the configured table these are the specifiers whose first segment
  is none of the ten prefixes. For every table, extension list, file system and
  specifier the result is one of the three signals -- \<open>NotAnAlias\<close>, \<open>Unresolved\<close>, or
  a resolved file that exists -- and there is no other outcome. With the table
  \<^verbatim>\<open>[["@", "./src"], ["@hooks", "./src/hooks"]]\<close>, \<^verbatim>\<open>"@utils/missing"\<close> yields
  \<open>NotAnAlias\<close> whatever the file system holds.
\<close>

theorem no_match_is_NotAnAlias:
  "(resolve tbl exts fs s = NotAnAlias) = (\<forall>e\<in>set tbl. \<not> matches (fst e) s) \<and>
   (resolve_configured dirname cwd fs s = NotAnAlias) =
     (takeWhile (\<lambda>c. c \<noteq> CHR ''/'') s \<notin> set (map fst (table dirname cwd))) \<and>
   (resolve tbl exts fs s = NotAnAlias \<or> resolve tbl exts fs s = Unresolved \<or>
      (\<exists>f. resolve tbl exts fs s = Resolved f \<and> fs f)) \<and>
   resolve [(''@'', ''./src''), (''@hooks'', ''./src/hooks'')] [''.js'', ''.jsx''] fs ''@utils/missing''
     = NotAnAlias"
proof (intro conjI)
  show "(resolve tbl exts fs s = NotAnAlias) = (\<forall>e\<in>set tbl. \<not> matches (fst e) s)"
    by (simp only: resolve_NotAnAlias select_None)
  show "(resolve_configured dirname cwd fs s = NotAnAlias) =
     (takeWhile (\<lambda>c. c \<noteq> CHR ''/'') s \<notin> set (map fst (table dirname cwd)))"
    by (simp only: resolve_configured_def resolve_NotAnAlias table_no_match)
  show "resolve tbl exts fs s = NotAnAlias \<or> resolve tbl exts fs s = Unresolved \<or>
      (\<exists>f. resolve tbl exts fs s = Resolved f \<and> fs f)"
    by (rule resolve_signals)
  show "resolve [(''@'', ''./src''), (''@hooks'', ''./src/hooks'')] [''.js'', ''.jsx''] fs ''@utils/missing''
     = NotAnAlias"
    by (simp add: resolve_NotAnAlias select_None matches_def)
qed

theorem no_match_is_NotAnAlias_witness:
  "\<not> matches ''@'' ''@utils/missing'' \<and> \<not> matches ''@hooks'' ''@utils/missing'' \<and>
   resolve [(''@'', ''./src''), (''@hooks'', ''./src/hooks'')] [''.js'', ''.jsx''] (\<lambda>f. True)
     ''@utils/missing'' = NotAnAlias \<and>
   resolve_configured ''/opt/eslint-config'' ''/home/dev/app'' (\<lambda>f. True) ''@utils/missing''
     = NotAnAlias"
proof -
  have g: "\<not> matches ''@'' ''@utils/missing''" by (simp add: matches_def)
  have g': "\<not> matches ''@hooks'' ''@utils/missing''" by (simp add: matches_def)
  from g g'
  have h: "\<forall>e\<in>set [(''@'', ''./src''), (''@hooks'', ''./src/hooks'')]. \<not> matches (fst e) ''@utils/missing''"
    by simp
  have t: "takeWhile (\<lambda>c. c \<noteq> CHR ''/'') ''@utils/missing''
             \<notin> set (map fst (table ''/opt/eslint-config'' ''/home/dev/app''))"
    by (simp add: table_prefixes)
  from no_match_is_NotAnAlias [of "[(''@'', ''./src''), (''@hooks'', ''./src/hooks'')]"
      "[''.js'', ''.jsx'']" "\<lambda>f. True" "''@utils/missing''" "''/opt/eslint-config''" "''/home/dev/app''"]
    h g g' t show ?thesis by blast
qed

text \<open>
  C5, as stated, fails on the configured table: \<^verbatim>\<open>@context\<close> and \<^verbatim>\<open>@lib\<close> do not
  overlap, yet \<^verbatim>\<open>@context/x\<close> resolves to a file of \<^verbatim>\<open>src/lib/context\<close>, which
  lies under \<^verbatim>\<open>@lib\<close>'s directory \<^verbatim>\<open>src/lib\<close>.
\<close>

theorem nested_directories_counterexample:
  "(''@context'', ''/opt/eslint-config/src/lib/context'') \<in> set (table ''/opt/eslint-config'' ''/home/dev/app'') \<and>
   (''@lib'', ''/opt/eslint-config/src/lib'') \<in> set (table ''/opt/eslint-config'' ''/home/dev/app'') \<and>
   ''@context'' \<noteq> ''@lib'' \<and> \<not> prefix ''@context'' ''@lib'' \<and> \<not> prefix ''@lib'' ''@context'' \<and>
   resolve_configured ''/opt/eslint-config'' ''/home/dev/app''
     ((=) ''/opt/eslint-config/src/lib/context/x.js'') (''@context'' @ ''/x'')
     = Resolved ''/opt/eslint-config/src/lib/context/x.js'' \<and>
   inside ''/opt/eslint-config/src/lib/context'' ''/opt/eslint-config/src/lib/context/x.js'' \<and>
   inside ''/opt/eslint-config/src/lib'' ''/opt/eslint-config/src/lib/context/x.js'' \<and>
   inside ''/opt/eslint-config/src/lib'' ''/opt/eslint-config/src/lib/context''"
  by code_simp

text \<open>
  C5, amended. For prefixes \<open>P1\<close> and \<open>P2\<close> of the configured table, neither a prefix
  of the other, resolving \<open>P1\<close> followed by \<^verbatim>\<open>/x\<close> never gives \<open>NotAnAlias\<close>; a
  resolved path is \<open>P1\<close>'s directory followed by \<^verbatim>\<open>/x\<close> and the first existing
  extension, so it lies under \<open>P1\<close>'s directory; it lies under \<open>P2\<close>'s directory exactly
  when \<open>P1\<close>'s directory does, which is the case for \<^verbatim>\<open>@context\<close> and \<^verbatim>\<open>@constants\<close>
  with \<open>P2\<close> = \<^verbatim>\<open>@lib\<close> and for no other such pair.
\<close>

theorem separate_prefixes_resolution:
  assumes ab: "is_absolute dirname"
    and e1: "(P1, D1) \<in> set (table dirname cwd)" and e2: "(P2, D2) \<in> set (table dirname cwd)"
    and n12: "\<not> prefix P1 P2" and n21: "\<not> prefix P2 P1"
  shows "resolve_configured dirname cwd fs (P1 @ ''/x'') =
           (if fs (D1 @ ''/x.js'') then Resolved (D1 @ ''/x.js'')
            else if fs (D1 @ ''/x.jsx'') then Resolved (D1 @ ''/x.jsx'') else Unresolved) \<and>
         (\<forall>f. resolve_configured dirname cwd fs (P1 @ ''/x'') = Resolved f \<longrightarrow>
              inside D1 f \<and> inside D2 f = inside D2 D1) \<and>
         inside D2 D1 = (P2 = ''@lib'' \<and> (P1 = ''@context'' \<or> P1 = ''@constants''))"
proof -
  let ?N = "package_segments dirname"
  have sel: "select_entry (table dirname cwd) (P1 @ ''/x'') = Some (P1, D1)"
    using table_select [OF e1, of "P1 @ ''/x''"] by (simp add: matches_def)
  have r: "resolve_configured dirname cwd fs (P1 @ ''/x'') =
           (if fs (D1 @ ''/x.js'') then Resolved (D1 @ ''/x.js'')
            else if fs (D1 @ ''/x.jsx'') then Resolved (D1 @ ''/x.jsx'') else Unresolved)"
    using resolve_configured_selected [OF sel, of fs] by simp
  from table_entry_form [OF ab e1] obtain ys1 where
    m1: "(P1, ys1) \<in> set relative_dirs" and s1: "segments D1 = ?N @ ys1" by blast
  from table_entry_form [OF ab e2] obtain ys2 where
    m2: "(P2, ys2) \<in> set relative_dirs" and s2: "segments D2 = ?N @ ys2" by blast
  have rp1: "prefix ys2 (ys1 @ [''x.js'']) = prefix ys2 ys1"
    using relative_pairs(1) [OF m1 m2] n12 n21 by simp
  have rp2: "prefix ys2 (ys1 @ [''x.jsx'']) = prefix ys2 ys1"
    using relative_pairs(2) [OF m1 m2] n12 n21 by simp
  have rp3: "prefix ys2 ys1 = (P2 = ''@lib'' \<and> (P1 = ''@context'' \<or> P1 = ''@constants''))"
    using relative_pairs(3) [OF m1 m2] n12 n21 by simp
  have f1: "segments (D1 @ ''/x.js'') = ?N @ ys1 @ [''x.js'']"
    using segments_append [of D1 "''x.js''"] by (simp add: s1 segments_slashfree)
  have f2: "segments (D1 @ ''/x.jsx'') = ?N @ ys1 @ [''x.jsx'']"
    using segments_append [of D1 "''x.jsx''"] by (simp add: s1 segments_slashfree)
  have i1: "inside D1 (D1 @ ''/x.js'') \<and> inside D2 (D1 @ ''/x.js'') = inside D2 D1"
    by (simp add: inside_def f1 s1 s2 rp1 del: prefix_snoc)
  have i2: "inside D1 (D1 @ ''/x.jsx'') \<and> inside D2 (D1 @ ''/x.jsx'') = inside D2 D1"
    by (simp add: inside_def f2 s1 s2 rp2 del: prefix_snoc)
  have q: "\<forall>f. resolve_configured dirname cwd fs (P1 @ ''/x'') = Resolved f \<longrightarrow>
              inside D1 f \<and> inside D2 f = inside D2 D1"
    unfolding r using i1 i2 by (auto split: if_splits)
  have w: "inside D2 D1 = (P2 = ''@lib'' \<and> (P1 = ''@context'' \<or> P1 = ''@constants''))"
    by (simp add: inside_def s1 s2 rp3)
  from r q w show ?thesis by blast
qed

theorem separate_prefixes_resolution_witness:
  "is_absolute ''/opt/eslint-config'' \<and>
   (''@hooks'', ''/opt/eslint-config/src/hooks'') \<in> set (table ''/opt/eslint-config'' ''/home/dev/app'') \<and>
   (''@lib'', ''/opt/eslint-config/src/lib'') \<in> set (table ''/opt/eslint-config'' ''/home/dev/app'') \<and>
   \<not> prefix ''@hooks'' ''@lib'' \<and> \<not> prefix ''@lib'' ''@hooks'' \<and>
   resolve_configured ''/opt/eslint-config'' ''/home/dev/app''
     ((=) ''/opt/eslint-config/src/hooks/x.jsx'') (''@hooks'' @ ''/x'')
     = Resolved ''/opt/eslint-config/src/hooks/x.jsx'' \<and>
   \<not> inside ''/opt/eslint-config/src/lib'' ''/opt/eslint-config/src/hooks''"
proof -
  let ?t = "table ''/opt/eslint-config'' ''/home/dev/app''"
  have ab: "is_absolute ''/opt/eslint-config''" by simp
  have m1: "(''@hooks'', ''/opt/eslint-config/src/hooks'') \<in> set ?t"
    by (simp add: sample_table)
  have m2: "(''@lib'', ''/opt/eslint-config/src/lib'') \<in> set ?t"
    by (simp add: sample_table)
  have n1: "\<not> prefix ''@hooks'' ''@lib''" by simp
  have n2: "\<not> prefix ''@lib'' ''@hooks''" by simp
  from separate_prefixes_resolution [OF ab m1 m2 n1 n2,
      of "(=) ''/opt/eslint-config/src/hooks/x.jsx''"] ab m1 m2
  show ?thesis by simp
qed

section \<open>The claim about the merge of layers\<close>

text \<open>
  C2. When two layers both set a rule key, the merge carries the value of the later
  one, whatever the key and the values. For a file that matches \<^verbatim>\<open>**/*.jsx\<close> (and so
  does not match \<^verbatim>\<open>**/*.js\<close>) the effective \<^verbatim>\<open>unicorn/filename-case\<close> of the exported
  list is the entry of the \<^verbatim>\<open>**/*.jsx\<close> layer, whose cases are \<^verbatim>\<open>pascalCase\<close> only, and
  not the entry of the earlier base layer, whose cases are \<^verbatim>\<open>camelCase\<close> and
  \<^verbatim>\<open>pascalCase\<close>; this holds whatever the layers of the other packages contain.
\<close>

theorem later_layer_wins:
  "(setting k a = Some va \<and> setting k b = Some vb \<longrightarrow> setting k (merge_rules a b) = Some vb) \<and>
   (glob ''**/*.jsx'' fname \<and> \<not> glob ''**/*.js'' fname \<longrightarrow>
      setting ''unicorn/filename-case''
          (effective glob (config dirname cwd recommended extended) fname)
        = setting ''unicorn/filename-case'' jsx_layer) \<and>
   map_option (rule_option ''cases'') (setting ''unicorn/filename-case'' jsx_layer)
     = Some (Some (JObj [(''pascalCase'', JBool True)])) \<and>
   map_option (rule_option ''cases'') (setting ''unicorn/filename-case'' (main_layer dirname cwd))
     = Some (Some (JObj [(''camelCase'', JBool True), (''pascalCase'', JBool True)]))"
proof (intro conjI impI)
  assume "setting k a = Some va \<and> setting k b = Some vb"
  then show "setting k (merge_rules a b) = Some vb"
    by (simp add: setting_merge)
next
  assume "glob ''**/*.jsx'' fname \<and> \<not> glob ''**/*.js'' fname"
  then show "setting ''unicorn/filename-case''
          (effective glob (config dirname cwd recommended extended) fname)
        = setting ''unicorn/filename-case'' jsx_layer"
    by (simp add: effective_jsx jsx_setting)
next
  show "map_option (rule_option ''cases'') (setting ''unicorn/filename-case'' jsx_layer)
     = Some (Some (JObj [(''pascalCase'', JBool True)]))"
    by (simp add: jsx_setting)
next
  show "map_option (rule_option ''cases'') (setting ''unicorn/filename-case'' (main_layer dirname cwd))
     = Some (Some (JObj [(''camelCase'', JBool True), (''pascalCase'', JBool True)]))"
    by (simp add: main_setting)
qed

theorem later_layer_wins_witness:
  "setting ''unicorn/filename-case'' (main_layer ''/opt/eslint-config'' ''/home/dev/app'') \<noteq> None \<and>
   setting ''unicorn/filename-case'' jsx_layer \<noteq> None \<and>
   setting ''unicorn/filename-case''
       (merge_rules (main_layer ''/opt/eslint-config'' ''/home/dev/app'') jsx_layer)
     = setting ''unicorn/filename-case'' jsx_layer \<and>
   suffix ''.jsx'' ''src/App.jsx'' \<and> \<not> suffix ''.js'' ''src/App.jsx'' \<and>
   map_option (rule_option ''cases'')
       (setting ''unicorn/filename-case''
          (effective (\<lambda>p f. suffix (drop 4 p) f)
             (config ''/opt/eslint-config'' ''/home/dev/app'' (JObj []) []) ''src/App.jsx''))
     = Some (Some (JObj [(''pascalCase'', JBool True)]))"
proof -
  let ?k = "''unicorn/filename-case''"
  let ?m = "main_layer ''/opt/eslint-config'' ''/home/dev/app''"
  let ?g = "\<lambda>p f. suffix (drop 4 p) (f::string)"
  have a: "setting ?k ?m = Some (the (setting ?k ?m))"
    by (simp add: main_setting)
  have b: "setting ?k jsx_layer = Some (the (setting ?k jsx_layer))"
    by (simp add: jsx_setting)
  have g1: "?g ''**/*.jsx'' ''src/App.jsx''"
    by (simp add: suffix_to_prefix)
  have g2: "\<not> ?g ''**/*.js'' ''src/App.jsx''"
    by (simp add: suffix_to_prefix)
  note w = later_layer_wins [where k = ?k and a = ?m and va = "the (setting ?k ?m)"
      and b = jsx_layer and vb = "the (setting ?k jsx_layer)" and glob = ?g
      and fname = "''src/App.jsx''" and dirname = "''/opt/eslint-config''"
      and cwd = "''/home/dev/app''" and recommended = "JObj []" and extended = "[]"]
  from w a b have "setting ?k (merge_rules ?m jsx_layer) = Some (the (setting ?k jsx_layer))"
    by blast
  with b have c1: "setting ?k (merge_rules ?m jsx_layer) = setting ?k jsx_layer"
    by simp
  from w g1 g2 have c2: "setting ?k
      (effective ?g (config ''/opt/eslint-config'' ''/home/dev/app'' (JObj []) []) ''src/App.jsx'')
        = setting ?k jsx_layer"
    by blast
  from w have c3: "map_option (rule_option ''cases'') (setting ?k jsx_layer)
     = Some (Some (JObj [(''pascalCase'', JBool True)]))"
    by blast
  have h1: "setting ?k ?m \<noteq> None" using a by blast
  have h2: "setting ?k jsx_layer \<noteq> None" using b by blast
  have s1: "suffix ''.jsx'' ''src/App.jsx''" using g1 by simp
  have s2: "\<not> suffix ''.js'' ''src/App.jsx''" using g2 by simp
  from h1 h2 c1 s1 s2 c2 c3 show ?thesis
    by (simp only: simp_thms)
qed

end
